theory Spec2Isabelle
  imports Main
begin

section \<open>The observer package: a channel and its subscribers\<close>

text \<open>
  The development follows \<^verbatim>\<open>observer/interfaces.py\<close>, \<^verbatim>\<open>observer/observers.py\<close> and
  \<^verbatim>\<open>observer/subject.py\<close> (the single file \<^verbatim>\<open>observer_pattern.py\<close> repeats the same
  classes). Python objects are compared by identity: none of the classes defines
  \<^verbatim>\<open>__eq__\<close>, so \<^verbatim>\<open>observer in self._subscribers\<close> and \<^verbatim>\<open>list.remove\<close> compare
  references. A subscriber handle is therefore a reference, the list of subscribers is a
  list of references, and a heap gives the object behind each reference. The objects are
  never mutated after construction, so the heap is a fixed parameter.
\<close>

subsection \<open>Subscribers (observers.py)\<close>

type_synonym handle = nat

datatype observer =
    EmailSubscriber string
  | MobileAppSubscriber string
  | SMSSubscriber string

type_synonym heap = "handle \<Rightarrow> observer"

text \<open>\<^verbatim>\<open>__str__\<close> of the three classes.\<close>

fun str_of :: "observer \<Rightarrow> string" where
  "str_of (EmailSubscriber email) = ''EmailSubscriber('' @ email @ '')''"
| "str_of (MobileAppSubscriber username) = ''MobileAppSubscriber(@'' @ username @ '')''"
| "str_of (SMSSubscriber phone_number) = ''SMSSubscriber('' @ phone_number @ '')''"

text \<open>
  Standard output is a list of printed lines. Every \<^verbatim>\<open>print\<close> call of the source has
  its own constructor, which carries the values interpolated into the f-string, in the
  order in which they appear there (the fixed text of the lines contains pictographs).
\<close>

datatype line =
    SubscribedLine string string
  | UnsubscribedLine string string
  | NotifyingLine nat
  | UploadedLine string string
  | EmailSentLine string
  | EmailBodyLine string string
  | PushLine string
  | PushBodyLine string string
  | SMSLine string
  | SMSBodyLine string string

datatype error = ValueError | Raised string

text \<open>
  \<^verbatim>\<open>update(self, video_title, channel_name)\<close> of the three classes: two printed lines
  each, and a normal return.
\<close>

fun update :: "observer \<Rightarrow> string \<Rightarrow> string \<Rightarrow> (error + unit) \<times> line list" where
  "update (EmailSubscriber email) video_title channel_name =
     (Inr (), [EmailSentLine email, EmailBodyLine channel_name video_title])"
| "update (MobileAppSubscriber username) video_title channel_name =
     (Inr (), [PushLine username, PushBodyLine channel_name video_title])"
| "update (SMSSubscriber phone_number) video_title channel_name =
     (Inr (), [SMSLine phone_number, SMSBodyLine channel_name video_title])"

subsection \<open>The Observer interface (interfaces.py)\<close>

text \<open>
  \<^verbatim>\<open>Observer.update\<close> is abstract: the channel calls \<^verbatim>\<open>subscriber.update(...)\<close> on
  whatever object the reference denotes. The call is a function from the reference and
  the two arguments to the outcome of the call (a normal return or a raised exception)
  and the lines printed meanwhile. \<open>update_in heap\<close> is the dispatch to the three classes
  of this package.

  An \<open>update_fn\<close> sees the two arguments only. It stands for subscribers whose
  \<^verbatim>\<open>update\<close> does not call back into the channel: it does not attach, detach, notify or
  publish while it runs. The three classes of the package are of this kind, as their
  \<^verbatim>\<open>update\<close> only prints. A subscriber that changes the channel from inside
  \<^verbatim>\<open>update\<close> is outside this development.
\<close>

type_synonym update_fn = "handle \<Rightarrow> string \<Rightarrow> string \<Rightarrow> (error + unit) \<times> line list"

definition update_in :: "heap \<Rightarrow> update_fn" where
  "update_in hp h video_title channel_name = update (hp h) video_title channel_name"

subsection \<open>The channel (subject.py)\<close>

record YouTubeChannel =
  ch_name :: string
  ch_subscribers :: "handle list"
  ch_latest_video :: string

text \<open>\<^verbatim>\<open>__init__\<close>.\<close>

definition init :: "string \<Rightarrow> YouTubeChannel" where
  "init channel_name = \<lparr>ch_name = channel_name, ch_subscribers = [], ch_latest_video = ''''\<rparr>"

text \<open>The read-only property \<^verbatim>\<open>channel_name\<close>.\<close>

definition channel_name :: "YouTubeChannel \<Rightarrow> string" where
  "channel_name ch = ch_name ch"

text \<open>
  What a run leaves behind: the lines printed and the calls made to subscribers, in the
  order in which they happened.
\<close>

datatype event =
    Printed line
  | Called handle string string

type_synonym outcome = "(error + unit) \<times> YouTubeChannel \<times> event list"

text \<open>\<^verbatim>\<open>list.remove(x)\<close> deletes the first element equal to x and raises ValueError if there is none.\<close>

definition list_remove :: "handle \<Rightarrow> handle list \<Rightarrow> error + handle list" where
  "list_remove x xs = (if x \<in> set xs then Inr (remove1 x xs) else Inl ValueError)"

definition attach :: "heap \<Rightarrow> YouTubeChannel \<Rightarrow> handle \<Rightarrow> outcome" where
  "attach hp ch observer =
     (if observer \<notin> set (ch_subscribers ch)
      then (Inr (),
            ch\<lparr>ch_subscribers := ch_subscribers ch @ [observer]\<rparr>,
            [Printed (SubscribedLine (str_of (hp observer)) (ch_name ch))])
      else (Inr (), ch, []))"

definition detach :: "heap \<Rightarrow> YouTubeChannel \<Rightarrow> handle \<Rightarrow> outcome" where
  "detach hp ch observer =
     (if observer \<in> set (ch_subscribers ch)
      then (case list_remove observer (ch_subscribers ch) of
              Inl e \<Rightarrow> (Inl e, ch, [])
            | Inr rest \<Rightarrow>
                (Inr (),
                 ch\<lparr>ch_subscribers := rest\<rparr>,
                 [Printed (UnsubscribedLine (str_of (hp observer)) (ch_name ch))]))
      else (Inr (), ch, []))"

text \<open>
  The loop of \<^verbatim>\<open>notify\<close>: one call per entry of the list, in list order. An exception
  raised by a call leaves the loop and the function at once, as nothing catches it.
  The source iterates \<^verbatim>\<open>self._subscribers\<close> itself and reads \<^verbatim>\<open>self._latest_video\<close> and
  \<^verbatim>\<open>self._channel_name\<close> at every turn; since an \<open>update_fn\<close> does not touch the
  channel, the three are the same at every turn, and the loop runs over their values at
  entry.
\<close>

fun fan_out :: "update_fn \<Rightarrow> handle list \<Rightarrow> string \<Rightarrow> string \<Rightarrow> (error + unit) \<times> event list" where
  "fan_out upd [] video channel = (Inr (), [])"
| "fan_out upd (subscriber # rest) video channel =
     (case upd subscriber video channel of
        (Inl e, printed) \<Rightarrow> (Inl e, Called subscriber video channel # map Printed printed)
      | (Inr u, printed) \<Rightarrow>
          (case fan_out upd rest video channel of
             (r, evs) \<Rightarrow> (r, Called subscriber video channel # map Printed printed @ evs)))"

definition notify :: "update_fn \<Rightarrow> YouTubeChannel \<Rightarrow> outcome" where
  "notify upd ch =
     (case fan_out upd (ch_subscribers ch) (ch_latest_video ch) (ch_name ch) of
        (r, evs) \<Rightarrow> (r, ch, Printed (NotifyingLine (length (ch_subscribers ch))) # evs))"

definition upload_video :: "update_fn \<Rightarrow> YouTubeChannel \<Rightarrow> string \<Rightarrow> outcome" where
  "upload_video upd ch video_title =
     (case notify upd (ch\<lparr>ch_latest_video := video_title\<rparr>) of
        (r, ch', evs) \<Rightarrow> (r, ch', Printed (UploadedLine (ch_name ch) video_title) # evs))"

subsection \<open>Sequences of operations\<close>

datatype op = Attach handle | Detach handle | Notify | UploadVideo string

fun step :: "heap \<Rightarrow> YouTubeChannel \<Rightarrow> op \<Rightarrow> outcome" where
  "step hp ch (Attach h) = attach hp ch h"
| "step hp ch (Detach h) = detach hp ch h"
| "step hp ch Notify = notify (update_in hp) ch"
| "step hp ch (UploadVideo t) = upload_video (update_in hp) ch t"

text \<open>A script of calls on one channel; an exception ends it.\<close>

fun exec :: "heap \<Rightarrow> YouTubeChannel \<Rightarrow> op list \<Rightarrow> outcome" where
  "exec hp ch [] = (Inr (), ch, [])"
| "exec hp ch (c # cs) =
     (case step hp ch c of
        (Inl e, ch', evs) \<Rightarrow> (Inl e, ch', evs)
      | (Inr u, ch', evs) \<Rightarrow>
          (case exec hp ch' cs of (r, ch'', evs') \<Rightarrow> (r, ch'', evs @ evs')))"

text \<open>Projections of an outcome, and the calls recorded in a trace.\<close>

definition result_of :: "outcome \<Rightarrow> error + unit" where
  "result_of oc = fst oc"

definition state_of :: "outcome \<Rightarrow> YouTubeChannel" where
  "state_of oc = fst (snd oc)"

definition trace_of :: "outcome \<Rightarrow> event list" where
  "trace_of oc = snd (snd oc)"

fun calls :: "event list \<Rightarrow> (handle \<times> string \<times> string) list" where
  "calls [] = []"
| "calls (Printed l # evs) = calls evs"
| "calls (Called h v c # evs) = (h, v, c) # calls evs"

text \<open>Whether a call in a script publishes a video.\<close>

fun is_upload :: "op \<Rightarrow> bool" where
  "is_upload (UploadVideo t) = True"
| "is_upload c = False"

subsection \<open>The demonstration of main.py\<close>

text \<open>
  The four subscribers that \<^verbatim>\<open>main\<close> creates, as references 0 to 3, and its calls on the
  channel \<^verbatim>\<open>TechMaster\<close>.
\<close>

definition demo_heap :: heap where
  "demo_heap h =
     (if h = 0 then EmailSubscriber ''alice@example.com''
      else if h = 1 then MobileAppSubscriber ''bob_dev''
      else if h = 2 then SMSSubscriber ''+7-777-123-4567''
      else EmailSubscriber ''charlie@example.com'')"

definition demo_script :: "op list" where
  "demo_script =
     [Attach 0, Attach 1, Attach 2,
      UploadVideo ''Python Design Patterns Tutorial'',
      Detach 1,
      UploadVideo ''Advanced Observer Pattern Explained'',
      Attach 3,
      UploadVideo ''Clean Code Principles in Python'']"

text \<open>
  A subscriber class outside the package, whose \<^verbatim>\<open>update\<close> raises at once, without
  printing and without touching the channel: the dispatch that raises at the reference
  \<open>bad\<close> and is the package's everywhere else.
\<close>

definition raising_at :: "handle \<Rightarrow> heap \<Rightarrow> update_fn" where
  "raising_at bad hp h video channel =
     (if h = bad then (Inl (Raised ''update failed''), [])
      else update_in hp h video channel)"

section \<open>Basic facts\<close>

lemma calls_append: "calls (xs @ ys) = calls xs @ calls ys"
  by (induction xs rule: calls.induct) simp_all

lemma calls_map_Printed: "calls (map Printed ls) = []"
  by (induction ls) simp_all

lemma update_returns: "fst (update ob v c) = Inr ()"
  by (cases ob) simp_all

lemma update_in_returns: "fst (update_in hp h v c) = Inr ()"
  by (simp add: update_in_def update_returns)

lemma fan_out_all_return:
  "\<forall>h\<in>set subs. fst (upd h v c) = Inr () \<Longrightarrow>
   fst (fan_out upd subs v c) = Inr () \<and>
   calls (snd (fan_out upd subs v c)) = map (\<lambda>h. (h, v, c)) subs"
proof (induction subs)
  case Nil
  then show ?case by simp
next
  case (Cons s subs)
  obtain r ls where u: "upd s v c = (r, ls)" by (cases "upd s v c")
  with Cons.prems have r: "r = Inr ()" by simp
  obtain r' evs where f: "fan_out upd subs v c = (r', evs)" by (cases "fan_out upd subs v c")
  from Cons have "r' = Inr ()" "calls evs = map (\<lambda>h. (h, v, c)) subs"
    using f by simp_all
  then show ?case using u r f by (simp add: calls_append calls_map_Printed)
qed

lemma fan_out_first_failure:
  "\<forall>h\<in>set before. fst (upd h v c) = Inr () \<Longrightarrow> fst (upd bad v c) = Inl e \<Longrightarrow>
   fst (fan_out upd (before @ bad # after) v c) = Inl e \<and>
   calls (snd (fan_out upd (before @ bad # after) v c)) = map (\<lambda>h. (h, v, c)) (before @ [bad])"
proof (induction before)
  case Nil
  obtain r ls where u: "upd bad v c = (r, ls)" by (cases "upd bad v c")
  with Nil have "r = Inl e" by simp
  then show ?case using u by (simp add: calls_map_Printed)
next
  case (Cons s before)
  obtain r ls where u: "upd s v c = (r, ls)" by (cases "upd s v c")
  with Cons.prems have r: "r = Inr ()" by simp
  obtain r' evs where f: "fan_out upd (before @ bad # after) v c = (r', evs)"
    by (cases "fan_out upd (before @ bad # after) v c")
  from Cons f have "r' = Inl e" "calls evs = map (\<lambda>h. (h, v, c)) (before @ [bad])"
    by simp_all
  then show ?case using u r f by (simp add: calls_append calls_map_Printed)
qed

lemma notify_parts:
  "result_of (notify upd ch) = fst (fan_out upd (ch_subscribers ch) (ch_latest_video ch) (ch_name ch))"
  "state_of (notify upd ch) = ch"
  "trace_of (notify upd ch) = Printed (NotifyingLine (length (ch_subscribers ch))) #
      snd (fan_out upd (ch_subscribers ch) (ch_latest_video ch) (ch_name ch))"
  by (simp_all add: notify_def result_of_def state_of_def trace_of_def split: prod.splits)

lemma upload_video_parts:
  "result_of (upload_video upd ch t) = result_of (notify upd (ch\<lparr>ch_latest_video := t\<rparr>))"
  "state_of (upload_video upd ch t) = ch\<lparr>ch_latest_video := t\<rparr>"
  "trace_of (upload_video upd ch t) =
     Printed (UploadedLine (ch_name ch) t) # trace_of (notify upd (ch\<lparr>ch_latest_video := t\<rparr>))"
  by (simp_all add: upload_video_def notify_def result_of_def state_of_def trace_of_def split: prod.splits)

lemma attach_parts:
  "result_of (attach hp ch h) = Inr ()"
  "state_of (attach hp ch h) =
     (if h \<in> set (ch_subscribers ch) then ch else ch\<lparr>ch_subscribers := ch_subscribers ch @ [h]\<rparr>)"
  "trace_of (attach hp ch h) =
     (if h \<in> set (ch_subscribers ch) then []
      else [Printed (SubscribedLine (str_of (hp h)) (ch_name ch))])"
  by (simp_all add: attach_def result_of_def state_of_def trace_of_def)

lemma detach_parts:
  "result_of (detach hp ch h) = Inr ()"
  "state_of (detach hp ch h) =
     (if h \<in> set (ch_subscribers ch) then ch\<lparr>ch_subscribers := remove1 h (ch_subscribers ch)\<rparr> else ch)"
  "trace_of (detach hp ch h) =
     (if h \<in> set (ch_subscribers ch)
      then [Printed (UnsubscribedLine (str_of (hp h)) (ch_name ch))] else [])"
  by (simp_all add: detach_def list_remove_def result_of_def state_of_def trace_of_def)

lemma notify_package:
  "result_of (notify (update_in hp) ch) = Inr ()"
  "calls (trace_of (notify (update_in hp) ch)) =
     map (\<lambda>h. (h, ch_latest_video ch, ch_name ch)) (ch_subscribers ch)"
  using fan_out_all_return[of "ch_subscribers ch" "update_in hp" "ch_latest_video ch" "ch_name ch"]
  by (simp_all add: notify_parts update_in_returns)

lemma step_result: "result_of (step hp ch c) = Inr ()"
  by (cases c) (simp_all add: attach_parts detach_parts notify_package upload_video_parts)

lemma step_name: "ch_name (state_of (step hp ch c)) = ch_name ch"
  by (cases c) (simp_all add: attach_parts detach_parts notify_parts upload_video_parts)

lemma step_distinct:
  "distinct (ch_subscribers ch) \<Longrightarrow> distinct (ch_subscribers (state_of (step hp ch c)))"
  by (cases c) (simp_all add: attach_parts detach_parts notify_parts upload_video_parts)

lemma exec_Cons_parts:
  "result_of (exec hp ch (c # cs)) = result_of (exec hp (state_of (step hp ch c)) cs)"
  "state_of (exec hp ch (c # cs)) = state_of (exec hp (state_of (step hp ch c)) cs)"
  "trace_of (exec hp ch (c # cs)) = trace_of (step hp ch c) @ trace_of (exec hp (state_of (step hp ch c)) cs)"
  using step_result[of hp ch c]
  by (auto simp: result_of_def state_of_def trace_of_def split: prod.splits sum.splits)

lemma exec_Nil_parts:
  "result_of (exec hp ch []) = Inr ()"
  "state_of (exec hp ch []) = ch"
  "trace_of (exec hp ch []) = []"
  by (simp_all add: result_of_def state_of_def trace_of_def)

declare exec.simps [simp del]

lemma exec_result: "result_of (exec hp ch cs) = Inr ()"
  by (induction cs arbitrary: ch) (simp_all only: exec_Nil_parts exec_Cons_parts)

lemma exec_name: "ch_name (state_of (exec hp ch cs)) = ch_name ch"
  by (induction cs arbitrary: ch) (simp_all only: exec_Nil_parts exec_Cons_parts step_name)

lemma exec_distinct:
  "distinct (ch_subscribers ch) \<Longrightarrow> distinct (ch_subscribers (state_of (exec hp ch cs)))"
  by (induction cs arbitrary: ch) (simp_all only: exec_Nil_parts exec_Cons_parts step_distinct)

lemma count_list_calls:
  "count_list (map (\<lambda>h. (h, v, c)) subs) (h, v, c) = count_list subs h"
  by (induction subs) simp_all

lemma count_list_distinct:
  "distinct xs \<Longrightarrow> count_list xs x = (if x \<in> set xs then 1 else 0)"
  by (induction xs) auto

lemma upload_video_package:
  "result_of (upload_video (update_in hp) ch t) = Inr ()"
  "calls (trace_of (upload_video (update_in hp) ch t)) =
     map (\<lambda>h. (h, t, ch_name ch)) (ch_subscribers ch)"
  by (simp_all add: upload_video_parts notify_package)

lemma exec_attach_all:
  "distinct (ch_subscribers ch @ hs) \<Longrightarrow>
   ch_subscribers (state_of (exec hp ch (map Attach hs))) = ch_subscribers ch @ hs"
proof (induction hs arbitrary: ch)
  case Nil
  then show ?case by (simp add: exec_Nil_parts)
next
  case (Cons h hs)
  from Cons.prems have fresh: "h \<notin> set (ch_subscribers ch)" by auto
  let ?ch' = "state_of (attach hp ch h)"
  from fresh have s: "ch_subscribers ?ch' = ch_subscribers ch @ [h]"
    by (simp add: attach_parts)
  with Cons.prems have "distinct (ch_subscribers ?ch' @ hs)" by simp
  from Cons.IH[OF this] s show ?case
    by (simp add: exec_Cons_parts)
qed

lemma init_parts:
  "ch_name (init name) = name"
  "ch_subscribers (init name) = []"
  "ch_latest_video (init name) = []"
  by (simp_all add: init_def)

lemma remove1_changes: "x \<in> set xs \<Longrightarrow> remove1 x xs \<noteq> xs"
proof
  assume m: "x \<in> set xs" and e: "remove1 x xs = xs"
  from m have "length (remove1 x xs) = length xs - 1"
    by (simp add: length_remove1)
  with e have "length xs = length xs - 1" by simp
  moreover from m have "0 < length xs" by (rule length_pos_if_in_set)
  ultimately show False by arith
qed

lemma step_latest:
  "\<not> is_upload c \<Longrightarrow> ch_latest_video (state_of (step hp ch c)) = ch_latest_video ch"
  by (cases c) (simp_all add: attach_parts detach_parts notify_parts)

lemma exec_latest:
  "\<not> list_ex is_upload cs \<Longrightarrow> ch_latest_video (state_of (exec hp ch cs)) = ch_latest_video ch"
  by (induction cs arbitrary: ch) (simp_all add: exec_Nil_parts exec_Cons_parts step_latest)

lemma exec_append_state:
  "state_of (exec hp ch (xs @ ys)) = state_of (exec hp (state_of (exec hp ch xs)) ys)"
  by (induction xs arbitrary: ch) (simp_all add: exec_Nil_parts exec_Cons_parts)

subsection \<open>The states a channel can be in\<close>

text \<open>
  Every script keeps the subscriber list free of repetitions (\<open>exec_distinct\<close>), and
  every channel whose list is free of repetitions is the result of a script on a new
  channel: attach its subscribers in order, then publish its latest video. So the
  channels with pairwise distinct subscribers are exactly the states of the program.
\<close>

lemma distinct_state_reachable:
  assumes "distinct (ch_subscribers ch)"
  shows "state_of (exec hp (init (ch_name ch))
           (map Attach (ch_subscribers ch) @ [UploadVideo (ch_latest_video ch)])) = ch"
proof -
  let ?ch1 = "state_of (exec hp (init (ch_name ch)) (map Attach (ch_subscribers ch)))"
  from assms have s: "ch_subscribers ?ch1 = ch_subscribers ch"
    using exec_attach_all[of "init (ch_name ch)" "ch_subscribers ch" hp] by (simp add: init_parts)
  have n: "ch_name ?ch1 = ch_name ch"
    by (simp add: exec_name init_parts)
  have "state_of (exec hp ?ch1 [UploadVideo (ch_latest_video ch)]) =
      ?ch1\<lparr>ch_latest_video := ch_latest_video ch\<rparr>"
    by (simp add: exec_Cons_parts exec_Nil_parts upload_video_parts)
  also from s n have "\<dots> = ch" by simp
  finally show ?thesis by (simp add: exec_append_state)
qed

subsection \<open>The run of main.py\<close>

text \<open>
  The demonstration ends normally. Its three publishes reach subscribers 0, 1, 2, then
  0, 2, then 0, 2, 3, as the transcript of \<^verbatim>\<open>main\<close> shows.
\<close>

lemma demo_run:
  "result_of (exec demo_heap (init ''TechMaster'') demo_script) = Inr ()"
  "calls (trace_of (exec demo_heap (init ''TechMaster'') demo_script)) =
     [(0, ''Python Design Patterns Tutorial'', ''TechMaster''),
      (1, ''Python Design Patterns Tutorial'', ''TechMaster''),
      (2, ''Python Design Patterns Tutorial'', ''TechMaster''),
      (0, ''Advanced Observer Pattern Explained'', ''TechMaster''),
      (2, ''Advanced Observer Pattern Explained'', ''TechMaster''),
      (0, ''Clean Code Principles in Python'', ''TechMaster''),
      (2, ''Clean Code Principles in Python'', ''TechMaster''),
      (3, ''Clean Code Principles in Python'', ''TechMaster'')]"
  by (simp_all add: exec_result demo_script_def exec_Cons_parts exec_Nil_parts attach_parts detach_parts
      upload_video_parts notify_package init_def calls_append)

section \<open>The claims\<close>

subsection \<open>C1: a publish reaches every subscriber once\<close>

text \<open>
  C1. For every channel (its subscribers pairwise distinct, as they are in every state the
  operations produce) and every title \<open>X\<close>, \<open>upload_video\<close> returns normally, stores \<open>X\<close>
  as the latest video and then runs \<open>notify\<close> on the updated channel. The calls made to
  subscribers are exactly one \<open>update(X, channel_name)\<close> per entry of the subscriber list:
  a subscribed reference is called exactly once, with \<open>X\<close> and the channel's name, and a
  reference that is not in the list is not called at all. The subscribers are objects of
  the three classes of the package.
\<close>

theorem upload_video_delivers:
  assumes "distinct (ch_subscribers ch)"
  shows "result_of (upload_video (update_in hp) ch X) = Inr () \<and>
         state_of (upload_video (update_in hp) ch X) = ch\<lparr>ch_latest_video := X\<rparr> \<and>
         trace_of (upload_video (update_in hp) ch X) =
           Printed (UploadedLine (channel_name ch) X) #
           trace_of (notify (update_in hp) (ch\<lparr>ch_latest_video := X\<rparr>)) \<and>
         calls (trace_of (upload_video (update_in hp) ch X)) =
           map (\<lambda>h. (h, X, channel_name ch)) (ch_subscribers ch) \<and>
         count_list (calls (trace_of (upload_video (update_in hp) ch X))) (h, X, channel_name ch) =
           (if h \<in> set (ch_subscribers ch) then 1 else 0) \<and>
         count_list (map fst (calls (trace_of (upload_video (update_in hp) ch X)))) h =
           (if h \<in> set (ch_subscribers ch) then 1 else 0)"
proof -
  let ?out = "upload_video (update_in hp) ch X"
  have r: "result_of ?out = Inr ()"
    by (simp add: upload_video_package)
  have s: "state_of ?out = ch\<lparr>ch_latest_video := X\<rparr>"
    by (simp add: upload_video_parts)
  have t: "trace_of ?out = Printed (UploadedLine (channel_name ch) X) #
           trace_of (notify (update_in hp) (ch\<lparr>ch_latest_video := X\<rparr>))"
    by (simp add: upload_video_parts channel_name_def)
  have c: "calls (trace_of ?out) = map (\<lambda>h. (h, X, channel_name ch)) (ch_subscribers ch)"
    by (simp add: upload_video_package channel_name_def)
  have "map fst (calls (trace_of ?out)) = ch_subscribers ch"
    by (simp add: c comp_def)
  then have n: "count_list (map fst (calls (trace_of ?out))) h =
           (if h \<in> set (ch_subscribers ch) then 1 else 0)"
    using assms by (simp add: count_list_distinct)
  have m: "count_list (calls (trace_of ?out)) (h, X, channel_name ch) =
           (if h \<in> set (ch_subscribers ch) then 1 else 0)"
    using assms by (simp add: c count_list_calls count_list_distinct)
  from r s t c m n show ?thesis by (simp only: simp_thms)
qed

theorem upload_video_delivers_witness:
  "distinct (ch_subscribers \<lparr>ch_name = ''TechMaster'', ch_subscribers = [0, 1, 2], ch_latest_video = ''''\<rparr>) \<and>
   calls (trace_of (upload_video (update_in demo_heap)
       \<lparr>ch_name = ''TechMaster'', ch_subscribers = [0, 1, 2], ch_latest_video = ''''\<rparr>
       ''Python Design Patterns Tutorial'')) =
     [(0, ''Python Design Patterns Tutorial'', ''TechMaster''),
      (1, ''Python Design Patterns Tutorial'', ''TechMaster''),
      (2, ''Python Design Patterns Tutorial'', ''TechMaster'')] \<and>
   count_list (map fst (calls (trace_of (upload_video (update_in demo_heap)
       \<lparr>ch_name = ''TechMaster'', ch_subscribers = [0, 1, 2], ch_latest_video = ''''\<rparr>
       ''Python Design Patterns Tutorial'')))) 3 = 0"
proof -
  let ?C = "\<lparr>ch_name = ''TechMaster'', ch_subscribers = [0, 1, 2], ch_latest_video = ''''\<rparr>"
  have d: "distinct (ch_subscribers ?C)" by simp
  note w = upload_video_delivers [OF d, of demo_heap "''Python Design Patterns Tutorial''" 3]
  from w have a: "calls (trace_of (upload_video (update_in demo_heap) ?C ''Python Design Patterns Tutorial'')) =
      map (\<lambda>h. (h, ''Python Design Patterns Tutorial'', channel_name ?C)) (ch_subscribers ?C)"
    by (elim conjE)
  from w have b: "count_list (map fst (calls (trace_of (upload_video (update_in demo_heap) ?C
      ''Python Design Patterns Tutorial'')))) 3 = (if 3 \<in> set (ch_subscribers ?C) then 1 else 0)"
    by (elim conjE)
  from a b show ?thesis
    by (simp add: channel_name_def)
qed

subsection \<open>C2: no reference is subscribed twice\<close>

text \<open>
  C2. After any script of calls on a freshly constructed channel (\<open>attach\<close> and \<open>detach\<close>,
  and \<open>notify\<close> and \<open>upload_video\<close> as well), the subscriber list holds no reference
  twice. Attaching a reference that is already in the list changes nothing: the call
  returns the channel as it was and prints nothing, so the length of the list, its
  contents and the trace of the next \<open>notify\<close> are the same. Attaching the same reference
  twice in a row leaves the state of a single attach, and the second call prints nothing.
\<close>

theorem subscribers_distinct:
  "distinct (ch_subscribers (state_of (exec hp (init name) ops))) \<and>
   (h \<in> set (ch_subscribers ch) \<longrightarrow>
      attach hp ch h = (Inr (), ch, []) \<and>
      length (ch_subscribers (state_of (attach hp ch h))) = length (ch_subscribers ch) \<and>
      ch_subscribers (state_of (attach hp ch h)) = ch_subscribers ch \<and>
      trace_of (notify upd (state_of (attach hp ch h))) = trace_of (notify upd ch)) \<and>
   state_of (attach hp (state_of (attach hp ch h)) h) = state_of (attach hp ch h) \<and>
   trace_of (attach hp (state_of (attach hp ch h)) h) = []"
proof -
  have "distinct (ch_subscribers (init name))" by (simp add: init_parts)
  then have d: "distinct (ch_subscribers (state_of (exec hp (init name) ops)))"
    by (rule exec_distinct)
  have a: "h \<in> set (ch_subscribers ch) \<Longrightarrow> attach hp ch h = (Inr (), ch, [])"
    by (simp add: attach_def)
  have s: "h \<in> set (ch_subscribers ch) \<Longrightarrow> state_of (attach hp ch h) = ch"
    by (simp add: attach_parts)
  have i: "state_of (attach hp (state_of (attach hp ch h)) h) = state_of (attach hp ch h)"
    by (simp add: attach_parts)
  have t: "trace_of (attach hp (state_of (attach hp ch h)) h) = []"
    by (simp add: attach_parts)
  from d a s i t show ?thesis by simp
qed

theorem subscribers_distinct_witness:
  "0 \<in> set (ch_subscribers (state_of (exec demo_heap (init ''TechMaster'') demo_script))) \<and>
   distinct (ch_subscribers (state_of (exec demo_heap (init ''TechMaster'') demo_script))) \<and>
   ch_subscribers (state_of (attach demo_heap
      (state_of (exec demo_heap (init ''TechMaster'') demo_script)) 0)) = [0, 2, 3]"
proof -
  let ?ch = "state_of (exec demo_heap (init ''TechMaster'') demo_script)"
  have s: "ch_subscribers ?ch = [0, 2, 3]"
    by (simp add: demo_script_def exec_Cons_parts exec_Nil_parts attach_parts detach_parts
        upload_video_parts notify_parts init_parts)
  then have m: "0 \<in> set (ch_subscribers ?ch)" by simp
  note w = subscribers_distinct [of demo_heap "''TechMaster''" demo_script 0 ?ch "update_in demo_heap"]
  from w have d: "distinct (ch_subscribers ?ch)" by (elim conjE)
  from w m have "ch_subscribers (state_of (attach demo_heap ?ch 0)) = ch_subscribers ?ch"
    by blast
  with s m d show ?thesis by simp
qed

subsection \<open>C3: notification follows subscription order\<close>

text \<open>
  C3. \<open>notify\<close> calls the subscribers in the order of the subscriber list, each with the
  latest video and the channel's name. The list is in subscription order: \<open>attach\<close> puts
  a new reference behind all earlier ones, so attaching distinct references to a fresh
  channel yields them in the order of the calls. Two publishes with no attach or detach
  in between call the same references in the same order.
\<close>

theorem notify_in_subscription_order:
  "calls (trace_of (notify (update_in hp) ch)) =
     map (\<lambda>h. (h, ch_latest_video ch, channel_name ch)) (ch_subscribers ch) \<and>
   (h \<notin> set (ch_subscribers ch) \<longrightarrow>
      ch_subscribers (state_of (attach hp ch h)) = ch_subscribers ch @ [h]) \<and>
   (distinct hs \<longrightarrow> ch_subscribers (state_of (exec hp (init name) (map Attach hs))) = hs) \<and>
   map fst (calls (trace_of (upload_video (update_in hp) ch X))) = ch_subscribers ch \<and>
   map fst (calls (trace_of (upload_video (update_in hp)
       (state_of (upload_video (update_in hp) ch X)) Y))) =
     map fst (calls (trace_of (upload_video (update_in hp) ch X)))"
proof -
  have a: "calls (trace_of (notify (update_in hp) ch)) =
     map (\<lambda>h. (h, ch_latest_video ch, channel_name ch)) (ch_subscribers ch)"
    by (simp add: notify_package channel_name_def)
  have b: "h \<notin> set (ch_subscribers ch) \<Longrightarrow>
      ch_subscribers (state_of (attach hp ch h)) = ch_subscribers ch @ [h]"
    by (simp add: attach_parts)
  have c: "distinct hs \<Longrightarrow> ch_subscribers (state_of (exec hp (init name) (map Attach hs))) = hs"
    using exec_attach_all[of "init name" hs hp] by (simp add: init_parts)
  have d: "map fst (calls (trace_of (upload_video (update_in hp) ch' Z))) = ch_subscribers ch'" for ch' Z
    by (simp add: upload_video_package comp_def)
  have e: "ch_subscribers (state_of (upload_video (update_in hp) ch X)) = ch_subscribers ch"
    by (simp add: upload_video_parts)
  from a b c d e show ?thesis by simp
qed

theorem notify_in_subscription_order_witness:
  "2 \<notin> set (ch_subscribers (init ''TechMaster'')) \<and> distinct [2, 0, 1 :: nat] \<and>
   ch_subscribers (state_of (attach demo_heap (init ''TechMaster'') 2)) = [2] \<and>
   calls (trace_of (notify (update_in demo_heap)
       (state_of (exec demo_heap (init ''TechMaster'') (map Attach [2, 0, 1]))))) =
     [(2, '''', ''TechMaster''), (0, '''', ''TechMaster''), (1, '''', ''TechMaster'')]"
proof -
  let ?ch = "state_of (exec demo_heap (init ''TechMaster'') (map Attach [2, 0, 1]))"
  have m: "2 \<notin> set (ch_subscribers (init ''TechMaster''))" by (simp add: init_parts)
  have d: "distinct [2, 0, 1 :: nat]" by simp
  note w1 = notify_in_subscription_order [of demo_heap "init ''TechMaster''" 2 "[2, 0, 1]" "''TechMaster''" "''''" "''''"]
  note w2 = notify_in_subscription_order [of demo_heap ?ch 2 "[2, 0, 1]" "''TechMaster''" "''''" "''''"]
  from w1 m have a: "ch_subscribers (state_of (attach demo_heap (init ''TechMaster'') 2)) =
      ch_subscribers (init ''TechMaster'') @ [2]"
    by blast
  from w2 d have s: "ch_subscribers ?ch = [2, 0, 1]"
    by blast
  from w2 have c: "calls (trace_of (notify (update_in demo_heap) ?ch)) =
     map (\<lambda>h. (h, ch_latest_video ?ch, channel_name ?ch)) (ch_subscribers ?ch)"
    by (elim conjE)
  have n: "channel_name ?ch = ''TechMaster''"
    by (simp add: channel_name_def exec_name init_parts)
  have l: "ch_latest_video ?ch = ''''"
    by (simp add: exec_Cons_parts exec_Nil_parts attach_parts init_parts)
  from m d a c s n l show ?thesis
    by (simp add: init_parts)
qed

subsection \<open>C4: a raising subscriber ends the loop\<close>

text \<open>
  C4, as stated, does not hold. On the channel with subscribers 0, 1 and 2, where the
  \<open>update\<close> of subscriber 0 raises, \<open>notify\<close> ends with that exception after the single
  call to subscriber 0: subscriber 1 is subscribed, comes after the failing one, and is
  not called.
\<close>

theorem notify_failure_skips_later_subscribers:
  "1 \<in> set (ch_subscribers \<lparr>ch_name = ''TechMaster'', ch_subscribers = [0, 1, 2], ch_latest_video = ''v''\<rparr>) \<and>
   fst (raising_at 0 demo_heap 0 ''v'' ''TechMaster'') = Inl (Raised ''update failed'') \<and>
   result_of (notify (raising_at 0 demo_heap)
      \<lparr>ch_name = ''TechMaster'', ch_subscribers = [0, 1, 2], ch_latest_video = ''v''\<rparr>) =
     Inl (Raised ''update failed'') \<and>
   calls (trace_of (notify (raising_at 0 demo_heap)
      \<lparr>ch_name = ''TechMaster'', ch_subscribers = [0, 1, 2], ch_latest_video = ''v''\<rparr>)) =
     [(0, ''v'', ''TechMaster'')] \<and>
   (1, ''v'', ''TechMaster'') \<notin> set (calls (trace_of (notify (raising_at 0 demo_heap)
      \<lparr>ch_name = ''TechMaster'', ch_subscribers = [0, 1, 2], ch_latest_video = ''v''\<rparr>)))"
  by (simp add: notify_def raising_at_def result_of_def trace_of_def)

text \<open>
  C4, amended. The statement is about subscribers whose \<open>update\<close> does not call back
  into the channel (no \<open>attach\<close>, \<open>detach\<close>, \<open>notify\<close> or \<open>upload_video\<close> from inside
  \<open>update\<close>), which is what \<open>update_fn\<close> describes. \<open>notify\<close> has no handler around the
  call to \<open>update\<close>: if the subscribers before some subscriber return normally and that
  subscriber's \<open>update\<close> raises, then \<open>notify\<close> ends with the same exception, and the
  calls made are exactly those to the subscribers before it and to the failing one, once
  per entry and in list order. No subscriber that stands only behind the failing one is
  called.
\<close>

theorem notify_stops_at_first_failure:
  assumes "ch_subscribers ch = before @ bad # after"
    and "\<forall>k\<in>set before. fst (upd k (ch_latest_video ch) (channel_name ch)) = Inr ()"
    and "fst (upd bad (ch_latest_video ch) (channel_name ch)) = Inl e"
  shows "result_of (notify upd ch) = Inl e \<and>
         calls (trace_of (notify upd ch)) =
           map (\<lambda>k. (k, ch_latest_video ch, channel_name ch)) (before @ [bad]) \<and>
         length (calls (trace_of (notify upd ch))) = Suc (length before) \<and>
         set (map fst (calls (trace_of (notify upd ch)))) = set before \<union> {bad}"
proof -
  from assms(2) have ok: "\<forall>k\<in>set before. fst (upd k (ch_latest_video ch) (ch_name ch)) = Inr ()"
    by (simp add: channel_name_def)
  from assms(3) have bad: "fst (upd bad (ch_latest_video ch) (ch_name ch)) = Inl e"
    by (simp add: channel_name_def)
  note f = fan_out_first_failure [of before upd "ch_latest_video ch" "ch_name ch" bad e after, OF ok bad]
  from f assms(1) have r: "result_of (notify upd ch) = Inl e"
    by (simp add: notify_parts)
  from f assms(1) have c: "calls (trace_of (notify upd ch)) =
        map (\<lambda>k. (k, ch_latest_video ch, channel_name ch)) (before @ [bad])"
    by (simp add: notify_parts channel_name_def)
  from c have l: "length (calls (trace_of (notify upd ch))) = Suc (length before)"
    by simp
  from c have "map fst (calls (trace_of (notify upd ch))) = before @ [bad]"
    by (simp add: comp_def)
  then have s: "set (map fst (calls (trace_of (notify upd ch)))) = set before \<union> {bad}"
    by simp
  from r c l s show ?thesis by (intro conjI)
qed

theorem notify_stops_at_first_failure_witness:
  "ch_subscribers \<lparr>ch_name = ''TechMaster'', ch_subscribers = [0, 1, 2], ch_latest_video = ''v''\<rparr> = [0] @ 1 # [2] \<and>
   fst (raising_at 1 demo_heap 0 ''v'' ''TechMaster'') = Inr () \<and>
   fst (raising_at 1 demo_heap 1 ''v'' ''TechMaster'') = Inl (Raised ''update failed'') \<and>
   result_of (notify (raising_at 1 demo_heap)
      \<lparr>ch_name = ''TechMaster'', ch_subscribers = [0, 1, 2], ch_latest_video = ''v''\<rparr>) =
     Inl (Raised ''update failed'') \<and>
   calls (trace_of (notify (raising_at 1 demo_heap)
      \<lparr>ch_name = ''TechMaster'', ch_subscribers = [0, 1, 2], ch_latest_video = ''v''\<rparr>)) =
     [(0, ''v'', ''TechMaster''), (1, ''v'', ''TechMaster'')]"
proof -
  let ?C = "\<lparr>ch_name = ''TechMaster'', ch_subscribers = [0, 1, 2], ch_latest_video = ''v''\<rparr>"
  let ?e = "Raised ''update failed''"
  have s: "ch_subscribers ?C = [0] @ 1 # [2]" by simp
  have g0: "fst (raising_at 1 demo_heap 0 ''v'' ''TechMaster'') = Inr ()"
    by (simp add: raising_at_def update_in_returns)
  have g1: "fst (raising_at 1 demo_heap 1 ''v'' ''TechMaster'') = Inl ?e"
    by (simp add: raising_at_def)
  from g0 have b: "\<forall>k\<in>set [0]. fst (raising_at 1 demo_heap k (ch_latest_video ?C) (channel_name ?C)) = Inr ()"
    by (simp add: channel_name_def)
  from g1 have f: "fst (raising_at 1 demo_heap 1 (ch_latest_video ?C) (channel_name ?C)) = Inl ?e"
    by (simp add: channel_name_def)
  note w = notify_stops_at_first_failure [of ?C "[0]" 1 "[2]" "raising_at 1 demo_heap" ?e, OF s b f]
  from w have r: "result_of (notify (raising_at 1 demo_heap) ?C) = Inl ?e"
    by (elim conjE)
  from w have c: "calls (trace_of (notify (raising_at 1 demo_heap) ?C)) =
        map (\<lambda>k. (k, ch_latest_video ?C, channel_name ?C)) ([0] @ [1])"
    by (elim conjE)
  from c have c': "calls (trace_of (notify (raising_at 1 demo_heap) ?C)) =
     [(0, ''v'', ''TechMaster''), (1, ''v'', ''TechMaster'')]"
    by (simp add: channel_name_def)
  from s g0 g1 r c' show ?thesis by (intro conjI)
qed

subsection \<open>C5: detach removes a subscriber if it is there\<close>

text \<open>
  C5. On a channel whose subscribers are pairwise distinct, \<open>detach h\<close> never raises.
  Afterwards \<open>h\<close> is not subscribed and every other subscriber still is; the list changes
  exactly when \<open>h\<close> was in it. When \<open>h\<close> is not subscribed the call returns the channel
  as it was and prints nothing. A second \<open>detach h\<close> does not raise either and leaves the
  state of the first.
\<close>

theorem detach_removes_iff_present:
  assumes "distinct (ch_subscribers ch)"
  shows "result_of (detach hp ch h) = Inr () \<and>
         h \<notin> set (ch_subscribers (state_of (detach hp ch h))) \<and>
         set (ch_subscribers (state_of (detach hp ch h))) = set (ch_subscribers ch) - {h} \<and>
         (ch_subscribers (state_of (detach hp ch h)) \<noteq> ch_subscribers ch) =
           (h \<in> set (ch_subscribers ch)) \<and>
         (h \<notin> set (ch_subscribers ch) \<longrightarrow> detach hp ch h = (Inr (), ch, [])) \<and>
         result_of (detach hp (state_of (detach hp ch h)) h) = Inr () \<and>
         state_of (detach hp (state_of (detach hp ch h)) h) = state_of (detach hp ch h)"
proof -
  let ?ch' = "state_of (detach hp ch h)"
  have r: "result_of (detach hp ch' h) = Inr ()" for ch'
    by (simp add: detach_parts)
  have s: "set (ch_subscribers ?ch') = set (ch_subscribers ch) - {h}"
    using assms by (auto simp: detach_parts)
  then have n: "h \<notin> set (ch_subscribers ?ch')" by simp
  have c: "(ch_subscribers ?ch' \<noteq> ch_subscribers ch) = (h \<in> set (ch_subscribers ch))"
    by (simp add: detach_parts remove1_changes)
  have a: "h \<notin> set (ch_subscribers ch) \<Longrightarrow> detach hp ch h = (Inr (), ch, [])"
    by (simp add: detach_def)
  from n have i: "state_of (detach hp ?ch' h) = ?ch'"
    by (simp add: detach_parts)
  from r s n c a i show ?thesis by simp
qed

theorem detach_removes_iff_present_witness:
  "distinct (ch_subscribers \<lparr>ch_name = ''TechMaster'', ch_subscribers = [0, 1, 2], ch_latest_video = ''v''\<rparr>) \<and>
   3 \<notin> set (ch_subscribers \<lparr>ch_name = ''TechMaster'', ch_subscribers = [0, 1, 2], ch_latest_video = ''v''\<rparr>) \<and>
   detach demo_heap \<lparr>ch_name = ''TechMaster'', ch_subscribers = [0, 1, 2], ch_latest_video = ''v''\<rparr> 3 =
     (Inr (), \<lparr>ch_name = ''TechMaster'', ch_subscribers = [0, 1, 2], ch_latest_video = ''v''\<rparr>, []) \<and>
   set (ch_subscribers (state_of (detach demo_heap
      \<lparr>ch_name = ''TechMaster'', ch_subscribers = [0, 1, 2], ch_latest_video = ''v''\<rparr> 1))) = {0, 2}"
proof -
  let ?C = "\<lparr>ch_name = ''TechMaster'', ch_subscribers = [0, 1, 2], ch_latest_video = ''v''\<rparr>"
  have d: "distinct (ch_subscribers ?C)" by simp
  have m: "3 \<notin> set (ch_subscribers ?C)" by simp
  note w3 = detach_removes_iff_present [OF d, of demo_heap 3]
  note w1 = detach_removes_iff_present [OF d, of demo_heap 1]
  from w3 m have a: "detach demo_heap ?C 3 = (Inr (), ?C, [])" by blast
  from w1 have b: "set (ch_subscribers (state_of (detach demo_heap ?C 1))) = set (ch_subscribers ?C) - {1}"
    by (elim conjE)
  have "set (ch_subscribers ?C) - {1} = {0, 2}" by auto
  with b have b': "set (ch_subscribers (state_of (detach demo_heap ?C 1))) = {0, 2}" by simp
  from d m a b' show ?thesis by (intro conjI)
qed

subsection \<open>C6: the operations never raise\<close>

text \<open>
  C6. With subscribers of the three classes of the package, none of \<open>attach\<close>,
  \<open>detach\<close>, \<open>notify\<close> and \<open>upload_video\<close> raises, in any state and for any argument,
  and so no script of such calls does; the property \<open>channel_name\<close> only reads a field.
  A new channel has the name it was given, no subscribers and the empty string as its
  latest video. As long as a script from a new channel has not published, \<open>notify\<close>
  returns normally and calls every subscriber with the empty string and the channel's
  name.
\<close>

theorem operations_total:
  "result_of (attach hp ch h) = Inr () \<and>
   result_of (detach hp ch h) = Inr () \<and>
   result_of (notify (update_in hp) ch) = Inr () \<and>
   result_of (upload_video (update_in hp) ch t) = Inr () \<and>
   result_of (exec hp ch ops) = Inr () \<and>
   channel_name (init name) = name \<and>
   ch_subscribers (init name) = [] \<and>
   ch_latest_video (init name) = '''' \<and>
   (\<not> list_ex is_upload ops \<longrightarrow>
      result_of (notify (update_in hp) (state_of (exec hp (init name) ops))) = Inr () \<and>
      calls (trace_of (notify (update_in hp) (state_of (exec hp (init name) ops)))) =
        map (\<lambda>k. (k, '''', name)) (ch_subscribers (state_of (exec hp (init name) ops))))"
proof -
  let ?ch = "state_of (exec hp (init name) ops)"
  have n: "ch_name ?ch = name"
    by (simp add: exec_name init_parts)
  have l: "\<not> list_ex is_upload ops \<Longrightarrow> ch_latest_video ?ch = ''''"
    by (simp add: exec_latest init_parts)
  show ?thesis
    by (intro conjI impI)
      (simp_all add: attach_parts detach_parts notify_package upload_video_package exec_result
        init_parts channel_name_def n l)
qed

theorem operations_total_witness:
  "\<not> list_ex is_upload [Attach 0, Detach 1, Attach 2, Notify] \<and>
   result_of (exec demo_heap (init ''TechMaster'') [Attach 0, Detach 1, Attach 2, Notify]) = Inr () \<and>
   calls (trace_of (notify (update_in demo_heap)
       (state_of (exec demo_heap (init ''TechMaster'') [Attach 0, Detach 1, Attach 2, Notify])))) =
     [(0, '''', ''TechMaster''), (2, '''', ''TechMaster'')]"
proof -
  let ?ops = "[Attach 0, Detach 1, Attach 2, Notify]"
  let ?ch = "state_of (exec demo_heap (init ''TechMaster'') ?ops)"
  have u: "\<not> list_ex is_upload ?ops" by simp
  note w = operations_total [of demo_heap "init ''TechMaster''" 0 "''''" ?ops "''TechMaster''"]
  from w have r: "result_of (exec demo_heap (init ''TechMaster'') ?ops) = Inr ()"
    by (elim conjE)
  from w u have c: "calls (trace_of (notify (update_in demo_heap) ?ch)) =
      map (\<lambda>k. (k, '''', ''TechMaster'')) (ch_subscribers ?ch)"
    by blast
  have s: "ch_subscribers ?ch = [0, 2]"
    by (simp add: exec_Cons_parts exec_Nil_parts attach_parts detach_parts notify_parts init_parts)
  from u r c s show ?thesis by simp
qed

subsection \<open>C7: what each operation leaves alone\<close>

text \<open>
  C7. The name of a channel is the one given at construction and no script of
  \<open>attach\<close>, \<open>detach\<close>, \<open>notify\<close> and \<open>upload_video\<close> calls changes it, nor does any
  single call (for \<open>notify\<close> and \<open>upload_video\<close> with any subscriber whose \<open>update\<close>
  returns or raises without calling back into the channel, the package's three classes
  among them). \<open>attach\<close> and \<open>detach\<close> leave the latest video as it was,
  \<open>upload_video\<close> leaves the subscriber list as it was, and \<open>notify\<close> changes nothing.
\<close>

theorem channel_name_immutable:
  "channel_name (init name) = name \<and>
   channel_name (state_of (exec hp (init name) ops)) = name \<and>
   channel_name (state_of (exec hp ch ops)) = channel_name ch \<and>
   channel_name (state_of (attach hp ch h)) = channel_name ch \<and>
   channel_name (state_of (detach hp ch h)) = channel_name ch \<and>
   channel_name (state_of (notify upd ch)) = channel_name ch \<and>
   channel_name (state_of (upload_video upd ch t)) = channel_name ch \<and>
   ch_latest_video (state_of (attach hp ch h)) = ch_latest_video ch \<and>
   ch_latest_video (state_of (detach hp ch h)) = ch_latest_video ch \<and>
   ch_subscribers (state_of (upload_video upd ch t)) = ch_subscribers ch \<and>
   state_of (notify upd ch) = ch"
  by (simp add: channel_name_def init_parts exec_name attach_parts detach_parts notify_parts
      upload_video_parts)

subsection \<open>C8: a confirmation line for every change of the list\<close>

text \<open>
  C8. \<open>attach h\<close> prints its confirmation line (the subscriber's text and the channel's
  name) when \<open>h\<close> was not subscribed and prints nothing otherwise; the subscriber list
  changes in exactly the first case, so a line is printed if and only if a reference was
  added. \<open>detach h\<close> prints its line when \<open>h\<close> was subscribed and nothing otherwise, and
  the list changes in exactly the first case.
\<close>

theorem confirmation_iff_change:
  "trace_of (attach hp ch h) =
     (if h \<in> set (ch_subscribers ch) then []
      else [Printed (SubscribedLine (str_of (hp h)) (channel_name ch))]) \<and>
   (ch_subscribers (state_of (attach hp ch h)) \<noteq> ch_subscribers ch) = (h \<notin> set (ch_subscribers ch)) \<and>
   (trace_of (attach hp ch h) \<noteq> []) =
     (ch_subscribers (state_of (attach hp ch h)) \<noteq> ch_subscribers ch) \<and>
   trace_of (detach hp ch h) =
     (if h \<in> set (ch_subscribers ch)
      then [Printed (UnsubscribedLine (str_of (hp h)) (channel_name ch))] else []) \<and>
   (ch_subscribers (state_of (detach hp ch h)) \<noteq> ch_subscribers ch) = (h \<in> set (ch_subscribers ch)) \<and>
   (trace_of (detach hp ch h) \<noteq> []) =
     (ch_subscribers (state_of (detach hp ch h)) \<noteq> ch_subscribers ch)"
  by (simp add: attach_parts detach_parts channel_name_def remove1_changes)

subsection \<open>C9: equal configuration, different subscribers\<close>

text \<open>
  C9. Two different references whose objects are equal (two \<open>EmailSubscriber\<close> objects
  made from the same address, say) are different subscribers. On a channel with pairwise
  distinct subscribers, after \<open>attach a\<close> and \<open>attach b\<close> both are subscribed; whether
  \<open>b\<close> counts as subscribed is not affected by attaching \<open>a\<close>; on a new channel the
  list is then \<open>[a, b]\<close>; and the next publish calls each of the two exactly once.
\<close>

theorem same_configuration_distinct_subscribers:
  assumes "a \<noteq> b" and "hp a = hp b" and "distinct (ch_subscribers ch)"
  shows "a \<in> set (ch_subscribers (state_of (attach hp (state_of (attach hp ch a)) b))) \<and>
         b \<in> set (ch_subscribers (state_of (attach hp (state_of (attach hp ch a)) b))) \<and>
         (b \<in> set (ch_subscribers (state_of (attach hp ch a)))) = (b \<in> set (ch_subscribers ch)) \<and>
         ch_subscribers (state_of (exec hp (init name) [Attach a, Attach b])) = [a, b] \<and>
         count_list (calls (trace_of (upload_video (update_in hp)
             (state_of (attach hp (state_of (attach hp ch a)) b)) X))) (a, X, channel_name ch) = 1 \<and>
         count_list (calls (trace_of (upload_video (update_in hp)
             (state_of (attach hp (state_of (attach hp ch a)) b)) X))) (b, X, channel_name ch) = 1"
proof -
  let ?ch1 = "state_of (attach hp ch a)"
  let ?ch2 = "state_of (attach hp ?ch1 b)"
  have ma: "a \<in> set (ch_subscribers ?ch2)"
    by (simp add: attach_parts)
  have mb: "b \<in> set (ch_subscribers ?ch2)"
    by (simp add: attach_parts)
  from assms(1) have k: "(b \<in> set (ch_subscribers ?ch1)) = (b \<in> set (ch_subscribers ch))"
    by (auto simp: attach_parts)
  from assms(1) have f: "ch_subscribers (state_of (exec hp (init name) [Attach a, Attach b])) = [a, b]"
    by (simp add: exec_Cons_parts exec_Nil_parts attach_parts init_parts)
  from assms(3) have d: "distinct (ch_subscribers ?ch2)"
    by (simp add: attach_parts)
  have n: "ch_name ?ch2 = ch_name ch"
    by (simp add: attach_parts)
  have c: "count_list (calls (trace_of (upload_video (update_in hp) ?ch2 X))) (k, X, channel_name ch) =
      (if k \<in> set (ch_subscribers ?ch2) then 1 else 0)" for k
    using d by (simp only: upload_video_package n channel_name_def count_list_calls count_list_distinct)
  from ma mb k f c[of a] c[of b] show ?thesis by simp
qed

theorem same_configuration_distinct_subscribers_witness:
  "(3::nat) \<noteq> 4 \<and> demo_heap 3 = demo_heap 4 \<and>
   distinct (ch_subscribers (init ''TechMaster'')) \<and>
   ch_subscribers (state_of (exec demo_heap (init ''TechMaster'') [Attach 3, Attach 4])) = [3, 4] \<and>
   count_list (calls (trace_of (upload_video (update_in demo_heap)
       (state_of (attach demo_heap (state_of (attach demo_heap (init ''TechMaster'') 3)) 4))
       ''Clean Code Principles in Python'')))
     (4, ''Clean Code Principles in Python'', channel_name (init ''TechMaster'')) = 1"
proof -
  have n: "(3::nat) \<noteq> 4" by simp
  have e: "demo_heap 3 = demo_heap 4" by (simp add: demo_heap_def)
  have d: "distinct (ch_subscribers (init ''TechMaster''))" by (simp add: init_parts)
  note w = same_configuration_distinct_subscribers [OF n e d, of "''TechMaster''" "''Clean Code Principles in Python''"]
  from w have a: "ch_subscribers (state_of (exec demo_heap (init ''TechMaster'') [Attach 3, Attach 4])) = [3, 4]"
    by (elim conjE)
  from w have b: "count_list (calls (trace_of (upload_video (update_in demo_heap)
       (state_of (attach demo_heap (state_of (attach demo_heap (init ''TechMaster'') 3)) 4))
       ''Clean Code Principles in Python'')))
     (4, ''Clean Code Principles in Python'', channel_name (init ''TechMaster'')) = 1"
    by (elim conjE)
  from n e d a b show ?thesis by (intro conjI)
qed

subsection \<open>C10: detach keeps the order of the others\<close>

text \<open>
  C10. When \<open>detach h\<close> finds \<open>h\<close> in the subscriber list, the list becomes one entry
  shorter: the first occurrence of \<open>h\<close> is cut out and the entries before and after it
  stay as they were, in the same order. The next publish calls exactly the remaining
  entries, in that order. With pairwise distinct subscribers the new list is the old
  one without \<open>h\<close>.
\<close>

theorem detach_preserves_order:
  assumes "h \<in> set (ch_subscribers ch)"
  shows "Suc (length (ch_subscribers (state_of (detach hp ch h)))) = length (ch_subscribers ch) \<and>
         (\<exists>before after.
            ch_subscribers ch = before @ h # after \<and> h \<notin> set before \<and>
            ch_subscribers (state_of (detach hp ch h)) = before @ after) \<and>
         calls (trace_of (upload_video (update_in hp) (state_of (detach hp ch h)) X)) =
           map (\<lambda>k. (k, X, channel_name ch)) (ch_subscribers (state_of (detach hp ch h))) \<and>
         (distinct (ch_subscribers ch) \<longrightarrow>
            ch_subscribers (state_of (detach hp ch h)) = filter (\<lambda>k. k \<noteq> h) (ch_subscribers ch))"
proof -
  let ?subs = "ch_subscribers ch"
  let ?ch' = "state_of (detach hp ch h)"
  from assms have s: "ch_subscribers ?ch' = remove1 h ?subs"
    by (simp add: detach_parts)
  from assms have "0 < length ?subs" by (rule length_pos_if_in_set)
  with assms have l: "Suc (length (ch_subscribers ?ch')) = length ?subs"
    by (simp add: s length_remove1)
  from assms obtain before after where
    sp: "?subs = before @ h # after" "h \<notin> set before"
    by (auto dest: split_list_first)
  then have "remove1 h ?subs = before @ after"
    by (simp add: remove1_append)
  with s have "ch_subscribers ?ch' = before @ after" by simp
  with sp have e: "\<exists>before after. ?subs = before @ h # after \<and> h \<notin> set before \<and>
      ch_subscribers ?ch' = before @ after"
    by blast
  have n: "ch_name ?ch' = ch_name ch"
    by (simp add: detach_parts)
  have c: "calls (trace_of (upload_video (update_in hp) ?ch' X)) =
           map (\<lambda>k. (k, X, channel_name ch)) (ch_subscribers ?ch')"
    by (simp add: upload_video_package channel_name_def n)
  have f: "distinct ?subs \<Longrightarrow> ch_subscribers ?ch' = filter (\<lambda>k. k \<noteq> h) ?subs"
    by (simp add: s distinct_remove1_removeAll removeAll_filter_not_eq) metis
  from l e c f show ?thesis by blast
qed

theorem detach_preserves_order_witness:
  "1 \<in> set (ch_subscribers \<lparr>ch_name = ''TechMaster'', ch_subscribers = [0, 1, 2], ch_latest_video = ''v''\<rparr>) \<and>
   distinct (ch_subscribers \<lparr>ch_name = ''TechMaster'', ch_subscribers = [0, 1, 2], ch_latest_video = ''v''\<rparr>) \<and>
   ch_subscribers (state_of (detach demo_heap
      \<lparr>ch_name = ''TechMaster'', ch_subscribers = [0, 1, 2], ch_latest_video = ''v''\<rparr> 1)) = [0, 2] \<and>
   calls (trace_of (upload_video (update_in demo_heap) (state_of (detach demo_heap
      \<lparr>ch_name = ''TechMaster'', ch_subscribers = [0, 1, 2], ch_latest_video = ''v''\<rparr> 1))
      ''Advanced Observer Pattern Explained'')) =
     [(0, ''Advanced Observer Pattern Explained'', ''TechMaster''),
      (2, ''Advanced Observer Pattern Explained'', ''TechMaster'')]"
proof -
  let ?C = "\<lparr>ch_name = ''TechMaster'', ch_subscribers = [0, 1, 2], ch_latest_video = ''v''\<rparr>"
  let ?X = "''Advanced Observer Pattern Explained''"
  have m: "1 \<in> set (ch_subscribers ?C)" by simp
  have d: "distinct (ch_subscribers ?C)" by simp
  note w = detach_preserves_order [OF m, of demo_heap ?X]
  from w d have "ch_subscribers (state_of (detach demo_heap ?C 1)) =
      filter (\<lambda>k. k \<noteq> 1) (ch_subscribers ?C)"
    by blast
  then have s: "ch_subscribers (state_of (detach demo_heap ?C 1)) = [0, 2]" by simp
  from w have "calls (trace_of (upload_video (update_in demo_heap) (state_of (detach demo_heap ?C 1)) ?X)) =
      map (\<lambda>k. (k, ?X, channel_name ?C)) (ch_subscribers (state_of (detach demo_heap ?C 1)))"
    by (elim conjE)
  with s have c: "calls (trace_of (upload_video (update_in demo_heap) (state_of (detach demo_heap ?C 1)) ?X)) =
      [(0, ?X, ''TechMaster''), (2, ?X, ''TechMaster'')]"
    by (simp add: channel_name_def)
  from m d s c show ?thesis by (intro conjI)
qed

end
